theory Spec2Isabelle
  imports Main "HOL-Library.Word" "HOL-Library.Sublist"
begin

unbundle bit_operations_syntax

section \<open>The vinput driver core (vinput.c)\<close>

text \<open>
  The driver keeps three pieces of shared state, all guarded by \<open>vinput_lock\<close>:
  the bitmap \<open>vinput_ids\<close> of \<open>VINPUT_MINORS = 32\<close> bits, the list
  \<open>vinput_devices\<close> of registered device types and the list \<open>vinput_vdevices\<close>
  of virtual device instances. The model is sequential: every function runs to its end
  before the next one starts, so the lock itself does not appear.

  Kernel lists are modelled by HOL lists in traversal order: \<open>list_add\<close> links a new
  entry right after the list head, so it becomes the first element, and
  \<open>list_for_each\<close> walks from the first element to the last. The linked objects
  themselves stand in the list; \<open>list_del\<close> of an object takes it out.
\<close>

subsection \<open>Constants\<close>

definition VINPUT_MINORS :: nat where
  "VINPUT_MINORS = 32"

definition ENOMEM :: int where "ENOMEM = 12"
definition EFAULT :: int where "EFAULT = 14"
definition ENODEV :: int where "ENODEV = 19"
definition EINVAL :: int where "EINVAL = 22"
definition ENOBUFS :: int where "ENOBUFS = 105"

subsection \<open>Data\<close>

text \<open>
  \<open>struct vinput_device\<close> and \<open>struct vinput\<close> are declared in vinput.h. Of a
  device type the core reads the name and follows the pointer to the operations table;
  the table is kept as an opaque handle. Of an instance the core uses the id and the
  bound type (\<open>NULL\<close> until \<open>export_store\<close> sets it). The input device and
  the embedded \<open>struct device\<close> belong to the kernel's input and driver cores; of
  them the model keeps what decides when the \<open>release\<close> callback of the embedded
  device runs: its reference count, and whether the input device is registered as its
  child. \<open>kzalloc\<close> zeroes both.
\<close>

record vinput_device =
  name :: string
  ops :: nat

record vinput =
  id :: nat
  type :: "vinput_device option"
  dev_refs :: nat
  input_registered :: bool

record vstate =
  vinput_ids :: "32 word"
  vinput_devices :: "vinput_device list"
  vinput_vdevices :: "vinput list"

text \<open>A pointer-returning function yields an object or an \<open>ERR_PTR\<close> code.\<close>

datatype 'a ptr = Ptr 'a | ERR_PTR int

text \<open>The state of the freshly loaded module: static storage is zeroed, both lists are empty.\<close>

definition vinput_init :: vstate where
  "vinput_init = \<lparr>vinput_ids = 0, vinput_devices = [], vinput_vdevices = []\<rparr>"

subsection \<open>Kernel primitives used by the core\<close>

text \<open>
  \<open>find_first_zero_bit(addr, size)\<close>: the index of the lowest clear bit below
  \<open>size\<close>, or \<open>size\<close> when all of them are set.
\<close>

definition find_first_zero_bit :: "32 word \<Rightarrow> nat \<Rightarrow> nat" where
  "find_first_zero_bit w n =
     (case List.find (\<lambda>i. \<not> bit w i) [0..<n] of Some i \<Rightarrow> i | None \<Rightarrow> n)"

definition clear_bit :: "nat \<Rightarrow> 32 word \<Rightarrow> 32 word" where
  "clear_bit i w = unset_bit i w"

definition list_add :: "'a \<Rightarrow> 'a list \<Rightarrow> 'a list" where
  "list_add x xs = x # xs"

text \<open>
  \<open>list_del\<close> of an entry that is not linked in the list is outside what C defines;
  the model leaves the list as it is.
\<close>

definition list_del :: "'a \<Rightarrow> 'a list \<Rightarrow> 'a list" where
  "list_del x xs = remove1 x xs"

text \<open>
  \<open>strncmp\<close> as lib/string.c has it, on NUL-terminated strings: the end of the HOL
  list is the terminating NUL, and characters compare as unsigned bytes.
\<close>

fun strncmp :: "string \<Rightarrow> string \<Rightarrow> nat \<Rightarrow> int" where
  "strncmp cs ct 0 = 0"
| "strncmp [] [] (Suc n) = 0"
| "strncmp [] (c2 # ct) (Suc n) = - 1"
| "strncmp (c1 # cs) [] (Suc n) = 1"
| "strncmp (c1 # cs) (c2 # ct) (Suc n) =
     (if c1 \<noteq> c2 then (if (of_char c1 :: nat) < of_char c2 then - 1 else 1)
      else strncmp cs ct n)"

definition strlen :: "string \<Rightarrow> nat" where
  "strlen s = length s"

subsection \<open>Lookups\<close>

text \<open>
  \<open>vinput_get_device_by_type\<close>: the first registered type, in list order, whose whole
  name equals the beginning of the query; \<open>ERR_PTR(-ENODEV)\<close> when the loop ends
  without a match.
\<close>

fun device_scan :: "string \<Rightarrow> vinput_device list \<Rightarrow> vinput_device ptr" where
  "device_scan t [] = ERR_PTR (- ENODEV)"
| "device_scan t (device # rest) =
     (if strncmp t (name device) (strlen (name device)) = 0 then Ptr device
      else device_scan t rest)"

definition vinput_get_device_by_type :: "string \<Rightarrow> vstate \<Rightarrow> vinput_device ptr" where
  "vinput_get_device_by_type t s = device_scan t (vinput_devices s)"

text \<open>
  \<open>vinput_get_vdevice_by_id\<close>: the loop leaves in \<open>vinput\<close> the entry it broke at,
  or the last entry of the list, or the initial \<open>NULL\<close> when the list is empty. The
  test after the loop reads \<open>vinput->id\<close> without a \<open>NULL\<close> check: on an empty
  list that is a \<open>NULL\<close> pointer dereference, the value \<open>None\<close> of the model.
\<close>

fun vdevice_scan :: "int \<Rightarrow> vinput option \<Rightarrow> vinput list \<Rightarrow> vinput option" where
  "vdevice_scan i cur [] = cur"
| "vdevice_scan i cur (v # rest) =
     (if int (id v) = i then Some v else vdevice_scan i (Some v) rest)"

definition vinput_get_vdevice_by_id :: "int \<Rightarrow> vstate \<Rightarrow> vinput ptr option" where
  "vinput_get_vdevice_by_id i s =
     (case vdevice_scan i None (vinput_vdevices s) of
        None \<Rightarrow> None
      | Some v \<Rightarrow> if int (id v) = i then Some (Ptr v) else Some (ERR_PTR (- ENODEV)))"

text \<open>
  \<open>vinput_open\<close>: the error code returned and the instance bound to the file
  (\<open>file->private_data\<close>), if any. \<open>iminor(inode)\<close> is the argument.
\<close>

definition vinput_open :: "nat \<Rightarrow> vstate \<Rightarrow> (int \<times> vinput option) option" where
  "vinput_open minor s =
     (case vinput_get_vdevice_by_id (int minor) s of
        None \<Rightarrow> None
      | Some (ERR_PTR e) \<Rightarrow> Some (e, None)
      | Some (Ptr v) \<Rightarrow> Some (0, Some v))"

subsection \<open>Per-instance I/O\<close>

text \<open>
  \<open>VINPUT_MAX_LEN\<close> is defined in vinput.h; it is the parameter \<open>max_len\<close>.
  The integer types are those of a 64-bit kernel: \<open>size_t\<close>, \<open>ssize_t\<close> and
  \<open>loff_t\<close> are 64 bits wide, \<open>int\<close> is 32 bits wide. A value of type
  \<open>ssize_t\<close> or \<open>loff_t\<close> is the signed reading \<open>sint\<close> of its word.

  User memory is described by how many bytes the caller's pointer can take
  (\<open>copy_to_user\<close>) or by the bytes that can be read from it (\<open>copy_from_user\<close>);
  a copy that reaches beyond them fails. As in the kernel, \<open>copy_to_user\<close> returns
  the number of bytes it could not copy.
\<close>

definition copy_to_user :: "nat \<Rightarrow> 64 word \<Rightarrow> 64 word" where
  "copy_to_user writable n =
     (if unat n \<le> writable then 0 else n - of_nat writable)"

definition copy_from_user :: "8 word list \<Rightarrow> nat \<Rightarrow> 8 word list option" where
  "copy_from_user mem n = (if n \<le> length mem then Some (take n mem) else None)"

text \<open>
  The two assignments to \<open>count\<close> before the copy in \<open>vinput_read\<close>.
  \<open>*offset > len\<close> compares a \<open>loff_t\<close> with an \<open>int\<close>, as signed 64-bit
  values; \<open>count + *offset > VINPUT_MAX_LEN\<close> is computed and compared unsigned;
  \<open>len - *offset\<close> is converted to \<open>size_t\<close>.
\<close>

definition read_count :: "nat \<Rightarrow> 32 word \<Rightarrow> 64 word \<Rightarrow> 64 word \<Rightarrow> 64 word" where
  "read_count max_len len count offset =
     (if scast len <s offset then 0
      else if count + offset > of_nat max_len then scast len - offset
      else count)"

text \<open>
  The result of \<open>vinput_read\<close>: the value returned, the file offset stored back, and
  the window of the staging buffer handed to \<open>copy_to_user\<close> (first index and
  number of bytes). \<open>read\<close> is the bound type's read operation, applied to the
  instance and the staging buffer; it returns the length produced.
\<close>

record read_result =
  r_ret :: "64 word"
  r_offset :: "64 word"
  r_from :: "64 word"
  r_n :: "64 word"

definition vinput_read ::
  "nat \<Rightarrow> (64 word \<Rightarrow> 32 word) \<Rightarrow> nat \<Rightarrow> 64 word \<Rightarrow> 64 word \<Rightarrow> read_result" where
  "vinput_read max_len read writable count offset =
     (let len = read count;
          count1 = read_count max_len len count offset;
          count2 = (if copy_to_user writable count1 \<noteq> 0 then word_of_int (- EFAULT)
                    else count1)
      in \<lparr>r_ret = count2, r_offset = offset + count2, r_from = offset, r_n = count1\<rparr>)"

text \<open>
  The result of \<open>vinput_write\<close>: the value returned and the calls made to the bound
  type's \<open>send\<close> operation, each with the staging buffer and the count passed.
  The staging buffer has \<open>VINPUT_MAX_LEN + 1\<close> bytes, zeroed before the copy.
\<close>

record write_result =
  w_ret :: int
  w_sent :: "(8 word list \<times> nat) list"

definition vinput_write ::
  "nat \<Rightarrow> (8 word list \<Rightarrow> nat \<Rightarrow> int) \<Rightarrow> 8 word list \<Rightarrow> nat \<Rightarrow> write_result" where
  "vinput_write max_len send mem count =
     (if count > max_len then \<lparr>w_ret = - EINVAL, w_sent = []\<rparr>
      else case copy_from_user mem count of
        None \<Rightarrow> \<lparr>w_ret = - EFAULT, w_sent = []\<rparr>
      | Some bytes \<Rightarrow>
          (let buff = bytes @ replicate (max_len + 1 - count) 0
           in \<lparr>w_ret = send buff count, w_sent = [(buff, count)]\<rparr>))"

subsection \<open>Instance lifecycle\<close>

definition vinput_destroy_vdevice :: "vinput \<Rightarrow> vstate \<Rightarrow> vstate" where
  "vinput_destroy_vdevice v s =
     s\<lparr>vinput_vdevices := list_del v (vinput_vdevices s),
       vinput_ids := clear_bit (id v) (vinput_ids s)\<rparr>"

definition vinput_release_dev :: "vinput \<Rightarrow> vstate \<Rightarrow> vstate" where
  "vinput_release_dev v s = vinput_destroy_vdevice v s"

text \<open>
  A field assignment through a pointer changes the object where it stands in the list.
\<close>

definition assign :: "vinput \<Rightarrow> vinput \<Rightarrow> vstate \<Rightarrow> vstate" where
  "assign v v' s =
     s\<lparr>vinput_vdevices := map (\<lambda>x. if x = v then v' else x) (vinput_vdevices s)\<rparr>"

text \<open>
  The driver core and the input core, as far as they reach the driver's state. The
  embedded device is reference counted, and \<open>vinput_release_dev\<close>, which
  \<open>vinput_alloc_vdevice\<close> installs as its \<open>release\<close> callback, runs when the last
  reference is given back, freeing the instance.
  \<^item> \<open>put_device\<close> gives one reference back. Its result is the instance as it stands
    afterwards, or \<open>None\<close> when the callback has run and the instance is freed. A
    count that is already 0 stays as it is.
  \<^item> \<open>device_register\<close> initialises the count to 1, whatever it then returns.
  \<^item> \<open>device_unregister\<close> removes the device and gives that reference back.
  \<^item> A successful \<open>input_register_device\<close> makes the input device a child of the
    embedded device (\<open>vinput_register_vdevice\<close> sets \<open>input->dev.parent\<close>), and a
    child holds a reference to its parent.
  \<^item> \<open>input_unregister_device\<close> of a registered input device removes the child, which
    gives the parent's reference back; of an input device that is not registered it
    leaves the driver's state alone.
\<close>

definition put_device :: "vinput \<Rightarrow> vstate \<Rightarrow> vinput option \<times> vstate" where
  "put_device v s =
     (if dev_refs v = 0 then (Some v, s)
      else
        (let v1 = v\<lparr>dev_refs := dev_refs v - 1\<rparr>;
             s1 = assign v v1 s
         in if dev_refs v1 = 0 then (None, vinput_release_dev v1 s1) else (Some v1, s1)))"

definition device_register :: "vinput \<Rightarrow> vstate \<Rightarrow> vinput \<times> vstate" where
  "device_register v s = (let v1 = v\<lparr>dev_refs := 1\<rparr> in (v1, assign v v1 s))"

definition device_unregister :: "vinput \<Rightarrow> vstate \<Rightarrow> vinput option \<times> vstate" where
  "device_unregister v s = put_device v s"

definition input_register_device :: "vinput \<Rightarrow> vstate \<Rightarrow> vinput \<times> vstate" where
  "input_register_device v s =
     (let v1 = v\<lparr>dev_refs := dev_refs v + 1, input_registered := True\<rparr>
      in (v1, assign v v1 s))"

definition input_unregister_device :: "vinput \<Rightarrow> vstate \<Rightarrow> vinput option \<times> vstate" where
  "input_unregister_device v s =
     (if \<not> input_registered v then (Some v, s)
      else (let v1 = v\<lparr>input_registered := False\<rparr> in put_device v1 (assign v v1 s)))"

definition vinput_unregister_vdevice :: "vinput \<Rightarrow> vstate \<Rightarrow> vinput option \<times> vstate" where
  "vinput_unregister_vdevice v s = input_unregister_device v s"

text \<open>
  What the collaborators outside the driver answer during one \<open>export_store\<close>:
  whether \<open>input_allocate_device\<close> returns an object, and the values returned by the
  type's \<open>init\<close> operation, by \<open>device_register\<close> and by
  \<open>input_register_device\<close>. \<open>kzalloc\<close> is taken to return an object; the source
  does not test its result.
\<close>

record ext =
  input_allocate_device_ok :: bool
  init_ret :: int
  device_register_ret :: int
  input_register_device_ret :: int

definition vinput_alloc_vdevice :: "bool \<Rightarrow> vstate \<Rightarrow> vinput ptr \<times> vstate" where
  "vinput_alloc_vdevice input_ok s =
     (let i = find_first_zero_bit (vinput_ids s) VINPUT_MINORS in
      if i \<ge> VINPUT_MINORS then (ERR_PTR (- ENOBUFS), s)
      else
        (let v = \<lparr>id = i, type = None, dev_refs = 0, input_registered = False\<rparr>;
             s1 = s\<lparr>vinput_ids := set_bit i (vinput_ids s),
                    vinput_vdevices := list_add v (vinput_vdevices s)\<rparr>
         in if \<not> input_ok
            then (ERR_PTR (- ENOMEM), s1\<lparr>vinput_vdevices := list_del v (vinput_vdevices s1)\<rparr>)
            else (Ptr v, s1)))"

text \<open>\<open>vinput->type = device\<close>.\<close>

definition set_type :: "vinput \<Rightarrow> vinput_device \<Rightarrow> vstate \<Rightarrow> vstate" where
  "set_type v device s =
     s\<lparr>vinput_vdevices :=
         map (\<lambda>x. if x = v then v\<lparr>type := Some device\<rparr> else x) (vinput_vdevices s)\<rparr>"

text \<open>
  The failure labels of \<open>export_store\<close>, which fall through from one to the next.
  Each takes the error to return, the instance and the state; \<open>None\<close> is a use of the
  instance after the \<open>release\<close> callback has freed it.
  \<^item> \<open>fail_register_vinput\<close>: \<open>vinput_destroy_vdevice\<close>.
  \<^item> \<open>fail_register\<close>: \<open>vinput_unregister_vdevice\<close>, then the label above.
  \<^item> \<open>fail_register_input\<close>: \<open>device_unregister\<close>, then the label above, which
    reads \<open>vinput->input\<close>.
\<close>

definition fail_register_vinput :: "int \<Rightarrow> vinput \<Rightarrow> vstate \<Rightarrow> (int \<times> vstate) option" where
  "fail_register_vinput err v s = Some (err, vinput_destroy_vdevice v s)"

definition fail_register :: "int \<Rightarrow> vinput \<Rightarrow> vstate \<Rightarrow> (int \<times> vstate) option" where
  "fail_register err v s =
     (case vinput_unregister_vdevice v s of
        (None, s1) \<Rightarrow> None
      | (Some v1, s1) \<Rightarrow> fail_register_vinput err v1 s1)"

definition fail_register_input :: "int \<Rightarrow> vinput \<Rightarrow> vstate \<Rightarrow> (int \<times> vstate) option" where
  "fail_register_input err v s =
     (case device_unregister v s of
        (None, s1) \<Rightarrow> None
      | (Some v1, s1) \<Rightarrow> fail_register err v1 s1)"

text \<open>
  \<open>export_store\<close>: the value returned and the state left behind, or \<open>None\<close> when
  the unwinding uses the freed instance; \<open>len\<close> is the length of \<open>buf\<close>.
\<close>

definition export_store :: "ext \<Rightarrow> string \<Rightarrow> vstate \<Rightarrow> (int \<times> vstate) option" where
  "export_store x buf s =
     (case vinput_get_device_by_type buf s of
        ERR_PTR e \<Rightarrow> Some (e, s)
      | Ptr device \<Rightarrow>
          (case vinput_alloc_vdevice (input_allocate_device_ok x) s of
             (ERR_PTR e, s1) \<Rightarrow> Some (e, s1)
           | (Ptr v0, s1) \<Rightarrow>
               (let v = v0\<lparr>type := Some device\<rparr>;
                    s2 = set_type v0 device s1
                in if init_ret x < 0 then fail_register_vinput (init_ret x) v s2
                   else
                     (case device_register v s2 of
                        (v1, s3) \<Rightarrow>
                          if device_register_ret x < 0
                          then fail_register (device_register_ret x) v1 s3
                          else if input_register_device_ret x < 0
                          then fail_register_input (input_register_device_ret x) v1 s3
                          else
                            (case input_register_device v1 s3 of
                               (v2, s4) \<Rightarrow> Some (int (length buf), s4))))))"

text \<open>
  \<open>unexport_store\<close>: \<open>kstrtol\<close> (a kernel library function) is a parameter that
  gives the number parsed, or nothing on a parse error. \<open>None\<close> is the \<open>NULL\<close>
  dereference of the lookup, or the read of \<open>vinput->input\<close> by
  \<open>vinput_unregister_vdevice\<close> after \<open>device_unregister\<close> has freed the instance.
\<close>

definition unexport_store ::
  "(string \<Rightarrow> int option) \<Rightarrow> string \<Rightarrow> vstate \<Rightarrow> (int \<times> vstate) option" where
  "unexport_store kstrtol buf s =
     (case kstrtol buf of
        None \<Rightarrow> Some (- EINVAL, s)
      | Some i \<Rightarrow>
          (case vinput_get_vdevice_by_id i s of
             None \<Rightarrow> None
           | Some (ERR_PTR e) \<Rightarrow> Some (e, s)
           | Some (Ptr v) \<Rightarrow>
               (case device_unregister v s of
                  (None, s1) \<Rightarrow> None
                | (Some v1, s1) \<Rightarrow>
                    Some (int (length buf), snd (vinput_unregister_vdevice v1 s1)))))"

subsection \<open>Type registration\<close>

definition vinput_register :: "vinput_device \<Rightarrow> vstate \<Rightarrow> int \<times> vstate" where
  "vinput_register dev s = (0, s\<lparr>vinput_devices := list_add dev (vinput_devices s)\<rparr>)"

text \<open>
  \<open>vinput_unregister\<close>: \<open>list_for_each_safe\<close> reads the successor before the body
  runs, so the loop visits every entry the list had when it started. The body calls
  \<open>device_unregister\<close> and nothing else.
\<close>

definition vinput_unregister :: "vinput_device \<Rightarrow> vstate \<Rightarrow> vstate" where
  "vinput_unregister dev s =
     (let s1 = s\<lparr>vinput_devices := list_del dev (vinput_devices s)\<rparr>
      in fold (\<lambda>v t. snd (device_unregister v t)) (vinput_vdevices s1) s1)"

subsection \<open>Device types and collaborators used in the examples\<close>

definition vkbd :: vinput_device where
  "vkbd = \<lparr>name = ''vkbd'', ops = 1\<rparr>"

definition vkbdpro :: vinput_device where
  "vkbdpro = \<lparr>name = ''vkbdpro'', ops = 2\<rparr>"

definition vmouse :: vinput_device where
  "vmouse = \<lparr>name = ''vmouse'', ops = 3\<rparr>"

text \<open>Every collaborator succeeds; \<open>input_allocate_device\<close> returns \<open>NULL\<close>.\<close>

definition ext_ok :: ext where
  "ext_ok = \<lparr>input_allocate_device_ok = True, init_ret = 0,
             device_register_ret = 0, input_register_device_ret = 0\<rparr>"

definition ext_no_input :: ext where
  "ext_no_input = ext_ok\<lparr>input_allocate_device_ok := False\<rparr>"

text \<open>
  An instance as a successful export leaves it: the device registered, the input device
  its child.
\<close>

definition exported :: "nat \<Rightarrow> vinput_device \<Rightarrow> vinput" where
  "exported i d = \<lparr>id = i, type = Some d, dev_refs = 2, input_registered = True\<rparr>"

text \<open>The module with the type "vkbd" registered and no instance.\<close>

definition s_vkbd :: vstate where
  "s_vkbd = snd (vinput_register vkbd vinput_init)"

text \<open>The same with one exported instance.\<close>

definition s_one :: vstate where
  "s_one = \<lparr>vinput_ids = 1, vinput_devices = [vkbd], vinput_vdevices = [exported 0 vkbd]\<rparr>"

text \<open>
  Two types registered, and the state after three exports: two instances of "vkbd", one
  of "vmouse".
\<close>

definition s_two_types :: vstate where
  "s_two_types = snd (vinput_register vmouse (snd (vinput_register vkbd vinput_init)))"

definition s_three :: vstate where
  "s_three =
     \<lparr>vinput_ids = 7, vinput_devices = [vmouse, vkbd],
      vinput_vdevices = [exported 2 vkbd, exported 1 vmouse, exported 0 vkbd]\<rparr>"

text \<open>A stand-in for \<open>kstrtol\<close> that parses the text "0" and rejects every other.\<close>

definition kstrtol_zero :: "string \<Rightarrow> int option" where
  "kstrtol_zero buf = (if buf = ''0'' then Some 0 else None)"

subsection \<open>Runs and the registry invariant\<close>

text \<open>
  A run of \<open>export_store\<close> calls that all succeed (none returns a negative value),
  with nothing else in between; \<open>None\<close> when one of them fails.
\<close>

fun exports :: "(ext \<times> string) list \<Rightarrow> vstate \<Rightarrow> vstate option" where
  "exports [] s = Some s"
| "exports ((x, buf) # rest) s =
     (case export_store x buf s of
        None \<Rightarrow> None
      | Some (r, s1) \<Rightarrow> if r < 0 then None else exports rest s1)"

text \<open>An id is marked in the bitmap exactly when an instance in the list bears it.\<close>

definition ids_match :: "vstate \<Rightarrow> bool" where
  "ids_match s =
     list_all (\<lambda>i. bit (vinput_ids s) i = (i \<in> set (map id (vinput_vdevices s))))
       [0..<VINPUT_MINORS]"

text \<open>
  The invariant that makes the agreement inductive: ids in the list are pairwise
  distinct, every instance in the list has its id marked, and bitmap and list agree.
\<close>

definition registry_ok :: "vstate \<Rightarrow> bool" where
  "registry_ok s =
     (distinct (map id (vinput_vdevices s)) \<and>
      list_all (\<lambda>v. bit (vinput_ids s) (id v)) (vinput_vdevices s) \<and>
      list_all (\<lambda>i. bit (vinput_ids s) i = (i \<in> set (map id (vinput_vdevices s))))
        [0..<VINPUT_MINORS])"

text \<open>The ids marked in the bitmap.\<close>

definition ids_used :: "32 word \<Rightarrow> nat set" where
  "ids_used w = {i. i < 32 \<and> bit w i}"

section \<open>Lookup by id\<close>

lemma vdevice_scan_find:
  "vdevice_scan i cur vs =
     (case List.find (\<lambda>v. int (id v) = i) vs of
        Some v \<Rightarrow> Some v
      | None \<Rightarrow> if vs = [] then cur else Some (last vs))"
  by (induction vs arbitrary: cur) (auto split: option.splits)

lemma find_id_Some:
  "List.find (\<lambda>v. int (id v) = i) vs = Some w \<Longrightarrow> int (id w) = i"
  by (induction vs) (auto split: if_splits)

lemma find_id_None:
  "List.find (\<lambda>v. int (id v) = i) vs = None \<Longrightarrow> vs \<noteq> [] \<Longrightarrow> int (id (last vs)) \<noteq> i"
  by (induction vs) (auto split: if_splits)

text \<open>
  On a registry that is not empty the lookup does what its callers expect: the first
  instance bearing the id, or \<open>ERR_PTR(-ENODEV)\<close> when there is none.
\<close>

lemma lookup_nonempty:
  "vinput_get_vdevice_by_id i (s\<lparr>vinput_vdevices := v # vs\<rparr>) =
     Some (case List.find (\<lambda>v. int (id v) = i) (v # vs) of
        Some w \<Rightarrow> Ptr w | None \<Rightarrow> ERR_PTR (- ENODEV))"
proof (cases "List.find (\<lambda>v. int (id v) = i) (v # vs)")
  case None
  from find_id_None [OF None] have "int (id (last (v # vs))) \<noteq> i" by simp
  with None show ?thesis
    by (simp add: vinput_get_vdevice_by_id_def vdevice_scan_find del: find.simps last.simps)
next
  case (Some w)
  from find_id_Some [OF Some] have "int (id w) = i" .
  with Some show ?thesis
    by (simp add: vinput_get_vdevice_by_id_def vdevice_scan_find del: find.simps last.simps)
qed

text \<open>
  C4. The lookup by id is to answer \<open>-ENODEV\<close> when no instance bears the id, also on
  an empty registry, and \<open>vinput_open\<close> is to fail with the same error. On the empty
  registry the code does neither: for every id the lookup dereferences the \<open>NULL\<close>
  pointer the loop left behind, and so does \<open>vinput_open\<close>.
\<close>

theorem lookup_by_id_empty_registry:
  "vinput_get_vdevice_by_id i (s\<lparr>vinput_vdevices := []\<rparr>) = None \<and>
   vinput_open minor (s\<lparr>vinput_vdevices := []\<rparr>) = None"
  by (simp add: vinput_get_vdevice_by_id_def vinput_open_def)

section \<open>Lookup by type name\<close>

lemma strncmp_prefix: "(strncmp t n (length n) = 0) = prefix n t"
proof (induction n arbitrary: t)
  case Nil
  show ?case by simp
next
  case (Cons c n)
  show ?case
  proof (cases t)
    case Nil
    then show ?thesis by simp
  next
    case (Cons d t')
    with Cons.IH [of t'] show ?thesis by auto
  qed
qed

lemma device_scan_find:
  "device_scan t ds =
     (case List.find (\<lambda>d. prefix (name d) t) ds of
        None \<Rightarrow> ERR_PTR (- ENODEV) | Some d \<Rightarrow> Ptr d)"
  by (induction ds) (simp_all add: strncmp_prefix strlen_def)

text \<open>
  C5, as amended. A registered type matches a query exactly when the query starts with
  the type's whole name; the lookup returns the first match in list order, and
  \<open>vinput_register\<close> puts the new type in front, so the type registered last is tried
  first. After registering "vkbdpro" and then "vkbd", a lookup for "vkbdpro" resolves to
  the type named "vkbd".
\<close>

theorem lookup_by_type_prefix_newest_first:
  "vinput_get_device_by_type t s =
     (case List.find (\<lambda>d. prefix (name d) t) (vinput_devices s) of
        None \<Rightarrow> ERR_PTR (- ENODEV) | Some d \<Rightarrow> Ptr d) \<and>
   vinput_devices (snd (vinput_register dev s)) = dev # vinput_devices s \<and>
   vinput_get_device_by_type ''vkbdpro''
     (snd (vinput_register vkbd (snd (vinput_register vkbdpro vinput_init)))) = Ptr vkbd"
  by (simp add: vinput_get_device_by_type_def device_scan_find vinput_register_def
      list_add_def vinput_init_def vkbd_def vkbdpro_def)

text \<open>
  C5 as stated fails: after registering "vkbd" and then "vkbdpro", a lookup for
  "vkbdpro" resolves to the type named "vkbdpro", not to "vkbd".
\<close>

theorem lookup_vkbdpro_counterexample:
  "vinput_get_device_by_type ''vkbdpro''
     (snd (vinput_register vkbdpro (snd (vinput_register vkbd vinput_init)))) = Ptr vkbdpro \<and>
   name vkbdpro \<noteq> ''vkbd''"
  by (simp add: vinput_get_device_by_type_def vinput_register_def list_add_def
      vinput_init_def vkbd_def vkbdpro_def strlen_def)

section \<open>Read and write\<close>

text \<open>
  C3. A read at an offset equal to or beyond the length produced is to return zero
  bytes, and the window copied is to stay within the bytes produced. The code tests
  \<open>*offset > len\<close> and clamps only when \<open>count + *offset\<close> exceeds
  \<open>VINPUT_MAX_LEN\<close>. With \<open>VINPUT_MAX_LEN = 8\<close> and a type that produced 2 bytes,
  a read of 3 bytes at offset 2 returns 3 bytes taken from indices 2 to 4 of the staging
  buffer, and a read of 5 bytes at offset 0 copies 5 bytes.
\<close>

theorem read_window_past_produced:
  "r_ret (vinput_read 8 (\<lambda>n. 2) 3 3 2) = 3 \<and>
   r_from (vinput_read 8 (\<lambda>n. 2) 3 3 2) = 2 \<and>
   r_n (vinput_read 8 (\<lambda>n. 2) 3 3 2) = 3 \<and>
   r_from (vinput_read 8 (\<lambda>n. 2) 5 5 0) = 0 \<and>
   r_n (vinput_read 8 (\<lambda>n. 2) 5 5 0) = 5"
  by (simp add: vinput_read_def read_count_def copy_to_user_def Let_def word_sless_alt)

text \<open>
  C10. The offset stored back is the old offset plus the value returned, in 64-bit
  arithmetic. When \<open>copy_to_user\<close> fails the value returned is \<open>-EFAULT\<close> and the
  offset stored is the old one minus 14, which differs from the old one.
\<close>

theorem read_offset_advance:
  "r_offset (vinput_read max_len read writable count offset) =
     offset + r_ret (vinput_read max_len read writable count offset) \<and>
   (copy_to_user writable (read_count max_len (read count) count offset) \<noteq> 0 \<longrightarrow>
      sint (r_ret (vinput_read max_len read writable count offset)) = - EFAULT \<and>
      r_offset (vinput_read max_len read writable count offset) = offset - 14 \<and>
      r_offset (vinput_read max_len read writable count offset) \<noteq> offset)"
  by (simp add: vinput_read_def Let_def EFAULT_def)

theorem read_offset_advance_witness:
  "copy_to_user 0 (read_count 8 2 3 1) \<noteq> 0 \<and>
   sint (r_ret (vinput_read 8 (\<lambda>n. 2) 0 3 1)) = - EFAULT \<and>
   r_offset (vinput_read 8 (\<lambda>n. 2) 0 3 1) = 1 - 14 \<and>
   r_offset (vinput_read 8 (\<lambda>n. 2) 0 3 1) = 1 + r_ret (vinput_read 8 (\<lambda>n. 2) 0 3 1)"
proof -
  have h: "copy_to_user 0 (read_count 8 ((\<lambda>n. 2) (3 :: 64 word)) 3 1) \<noteq> 0"
    by (simp add: copy_to_user_def read_count_def word_sless_alt)
  from h read_offset_advance [of 8 "\<lambda>n. 2" 0 3 1] show ?thesis by blast
qed

text \<open>
  C8, as amended. A write longer than \<open>VINPUT_MAX_LEN\<close> returns \<open>-EINVAL\<close> and
  \<open>send\<close> is not called. A write within the limit whose bytes can be copied from the
  caller's buffer calls \<open>send\<close> once, on a staging buffer of \<open>VINPUT_MAX_LEN + 1\<close>
  bytes that holds the caller's bytes followed by zeros, and returns what \<open>send\<close>
  returned. A write within the limit whose copy from the caller's buffer faults returns
  \<open>-EFAULT\<close> and \<open>send\<close> is not called.
\<close>

theorem write_bounded:
  "(max_len < count \<longrightarrow>
      vinput_write max_len send mem count = \<lparr>w_ret = - EINVAL, w_sent = []\<rparr>) \<and>
   (count \<le> max_len \<and> count \<le> length mem \<longrightarrow>
      w_sent (vinput_write max_len send mem count) =
        [(take count mem @ replicate (max_len + 1 - count) 0, count)] \<and>
      w_ret (vinput_write max_len send mem count) =
        send (take count mem @ replicate (max_len + 1 - count) 0) count \<and>
      length (take count mem @ replicate (max_len + 1 - count) 0) = max_len + 1) \<and>
   (count \<le> max_len \<and> length mem < count \<longrightarrow>
      vinput_write max_len send mem count = \<lparr>w_ret = - EFAULT, w_sent = []\<rparr>)"
  by (simp add: vinput_write_def copy_from_user_def Let_def)

theorem write_bounded_witness:
  "(8::nat) < 9 \<and>
   vinput_write 8 (\<lambda>b n. int n) [1, 2, 3] 9 = \<lparr>w_ret = - EINVAL, w_sent = []\<rparr> \<and>
   (3::nat) \<le> 8 \<and> 3 \<le> length [1, 2, 3 :: 8 word] \<and>
   w_sent (vinput_write 8 (\<lambda>b n. int n) [1, 2, 3] 3) = [([1, 2, 3, 0, 0, 0, 0, 0, 0], 3)] \<and>
   w_ret (vinput_write 8 (\<lambda>b n. int n) [1, 2, 3] 3) = 3 \<and>
   length [1, 2, 3 :: 8 word] < 4 \<and>
   vinput_write 8 (\<lambda>b n. int n) [1, 2, 3] 4 = \<lparr>w_ret = - EFAULT, w_sent = []\<rparr>"
  using write_bounded [of 8 9 "\<lambda>b n. int n" "[1, 2, 3]"]
    write_bounded [of 8 3 "\<lambda>b n. int n" "[1, 2, 3]"]
    write_bounded [of 8 4 "\<lambda>b n. int n" "[1, 2, 3]"]
  by (simp add: numeral_eq_Suc)

text \<open>
  C8 as stated fails: a write of 4 bytes, within the limit of 8, from a buffer of which
  only 3 bytes can be read returns \<open>-EFAULT\<close>, not the result of \<open>send\<close> (which
  would be 4), and \<open>send\<close> is not called.
\<close>

theorem write_copy_fault_counterexample:
  "(4::nat) \<le> 8 \<and>
   w_ret (vinput_write 8 (\<lambda>b n. int n) [1, 2, 3] 4) = - EFAULT \<and>
   w_ret (vinput_write 8 (\<lambda>b n. int n) [1, 2, 3] 4) \<noteq> int 4 \<and>
   w_sent (vinput_write 8 (\<lambda>b n. int n) [1, 2, 3] 4) = []"
  by (simp add: vinput_write_def copy_from_user_def EFAULT_def)

section \<open>The id allocator and exhaustion\<close>

lemma find_upt_None: "List.find P [0..<n] = None \<longleftrightarrow> (\<forall>j<n. \<not> P j)"
  by (simp add: find_None_iff)

lemma find_upt_Some: "List.find P [0..<n] = Some i \<Longrightarrow> i < n \<and> P i \<and> (\<forall>j<i. \<not> P j)"
  by (auto simp: find_Some_iff)

lemma ffz_full: "(\<forall>j<n. bit w j) \<Longrightarrow> find_first_zero_bit w n = n"
  by (auto simp: find_first_zero_bit_def dest: find_upt_Some split: option.splits)

lemma ffz_free:
  "find_first_zero_bit w n < n \<Longrightarrow>
     \<not> bit w (find_first_zero_bit w n) \<and> (\<forall>j < find_first_zero_bit w n. bit w j)"
  by (auto simp: find_first_zero_bit_def dest: find_upt_Some split: option.splits)

lemma ffz_le: "find_first_zero_bit w n \<le> n"
  by (auto simp: find_first_zero_bit_def dest: find_upt_Some split: option.splits)


lemma ids_used_sub: "ids_used w \<subseteq> {..<32}"
  by (auto simp: ids_used_def)

lemma finite_ids_used: "finite (ids_used w)"
  by (rule finite_subset [OF ids_used_sub]) simp

lemma card_ids_used_le: "card (ids_used w) \<le> 32"
  using card_mono [OF _ ids_used_sub, of w] by simp

lemma ids_used_set_bit: "i < 32 \<Longrightarrow> ids_used (set_bit i w) = insert i (ids_used w)"
  by (auto simp: ids_used_def bit_set_bit_iff)

lemma card_ids_used_set_bit:
  "i < 32 \<Longrightarrow> \<not> bit w i \<Longrightarrow> card (ids_used (set_bit i w)) = Suc (card (ids_used w))"
proof -
  assume i: "i < 32" and b: "\<not> bit w i"
  from b have "i \<notin> ids_used w" by (simp add: ids_used_def)
  with i show ?thesis by (simp add: ids_used_set_bit finite_ids_used)
qed

lemma ids_used_full: "card (ids_used w) = 32 \<Longrightarrow> j < 32 \<Longrightarrow> bit w j"
proof -
  assume c: "card (ids_used w) = 32" and j: "j < 32"
  have "ids_used w = {..<32}"
    by (rule card_subset_eq [OF _ ids_used_sub]) (simp_all add: c)
  with j show "bit w j" by (auto simp: ids_used_def)
qed

lemma alloc_ok:
  "vinput_alloc_vdevice True s = (Ptr v, s1) \<Longrightarrow>
     id v < 32 \<and> \<not> bit (vinput_ids s) (id v) \<and>
     vinput_ids s1 = set_bit (id v) (vinput_ids s)"
  using ffz_free [of "vinput_ids s" 32]
  by (auto simp: vinput_alloc_vdevice_def Let_def VINPUT_MINORS_def split: if_splits)

lemma alloc_fail_input:
  "vinput_alloc_vdevice False s = (r, s1) \<Longrightarrow> \<exists>e. r = ERR_PTR e \<and> e < 0"
  by (auto simp: vinput_alloc_vdevice_def Let_def ENOBUFS_def ENOMEM_def split: if_splits)

lemma alloc_err_neg:
  "vinput_alloc_vdevice b s = (ERR_PTR e, s1) \<Longrightarrow> e < 0"
  by (auto simp: vinput_alloc_vdevice_def Let_def ENOBUFS_def ENOMEM_def split: if_splits)

lemma device_scan_err: "device_scan t ds = ERR_PTR e \<Longrightarrow> e = - ENODEV"
  by (induction ds) (auto split: if_splits)

lemma set_type_ids: "vinput_ids (set_type v d s) = vinput_ids s"
  by (simp add: set_type_def)

lemma assign_ids: "vinput_ids (assign v w s) = vinput_ids s"
  by (simp add: assign_def)

lemma export_success:
  assumes "export_store x buf s = Some (r, s1)" and "0 \<le> r"
  shows "\<exists>i<32. \<not> bit (vinput_ids s) i \<and> vinput_ids s1 = set_bit i (vinput_ids s)"
proof (cases "vinput_get_device_by_type buf s")
  case (ERR_PTR e)
  then have "e = - ENODEV" by (simp add: vinput_get_device_by_type_def device_scan_err)
  with assms ERR_PTR show ?thesis by (simp add: export_store_def ENODEV_def)
next
  case (Ptr device)
  obtain p s' where a: "vinput_alloc_vdevice (input_allocate_device_ok x) s = (p, s')"
    by (cases "vinput_alloc_vdevice (input_allocate_device_ok x) s")
  show ?thesis
  proof (cases p)
    case (ERR_PTR e)
    with a have "e < 0" by (auto dest: alloc_err_neg)
    with assms Ptr a ERR_PTR show ?thesis by (simp add: export_store_def)
  next
    case p: (Ptr v0)
    have ok: "input_allocate_device_ok x"
    proof (rule ccontr)
      assume "\<not> input_allocate_device_ok x"
      with a p show False by (auto dest: alloc_fail_input)
    qed
    from a p ok have al: "vinput_alloc_vdevice True s = (Ptr v0, s')" by simp
    from assms Ptr a p have "vinput_ids s1 = vinput_ids s'"
      by (auto simp: export_store_def Let_def fail_register_vinput_def fail_register_def
          fail_register_input_def device_register_def input_register_device_def
          assign_ids set_type_ids
          split: if_splits prod.splits option.splits)
    with alloc_ok [OF al] show ?thesis by auto
  qed
qed

lemma exports_card:
  "exports cs s = Some t \<Longrightarrow>
     card (ids_used (vinput_ids t)) = card (ids_used (vinput_ids s)) + length cs"
proof (induction cs arbitrary: s)
  case Nil
  then show ?case by simp
next
  case (Cons c cs)
  obtain x buf where c: "c = (x, buf)" by (cases c)
  from Cons.prems c obtain r s1 where e: "export_store x buf s = Some (r, s1)"
    by (cases "export_store x buf s") auto
  from Cons.prems c e have r: "0 \<le> r" and rest: "exports cs s1 = Some t"
    by (auto split: if_splits)
  from export_success [OF e r] obtain i where
    "i < 32" "\<not> bit (vinput_ids s) i" "vinput_ids s1 = set_bit i (vinput_ids s)" by blast
  then have "card (ids_used (vinput_ids s1)) = Suc (card (ids_used (vinput_ids s)))"
    by (simp add: card_ids_used_set_bit)
  with Cons.IH [OF rest] show ?case by simp
qed

lemma alloc_exhausted:
  "\<forall>j<32. bit (vinput_ids s) j \<Longrightarrow> vinput_alloc_vdevice b s = (ERR_PTR (- ENOBUFS), s)"
  by (simp add: vinput_alloc_vdevice_def VINPUT_MINORS_def ffz_full)

text \<open>
  C7. After \<open>VINPUT_MINORS = 32\<close> successful exports with nothing in between,
  whatever the state they started from, the next export changes nothing: the bitmap, the
  instance list and the type list are as before. It returns \<open>-ENOBUFS\<close> when the
  name resolves to a registered type (and \<open>-ENODEV\<close> when it does not, the lookup
  coming first).
\<close>

theorem create_exhausted:
  assumes "exports cs s = Some t" and "length cs = VINPUT_MINORS"
  shows "export_store x buf t =
     Some (case vinput_get_device_by_type buf t of
             ERR_PTR e \<Rightarrow> - ENODEV | Ptr d \<Rightarrow> - ENOBUFS, t)"
proof -
  from exports_card [OF assms(1)] assms(2) have "32 \<le> card (ids_used (vinput_ids t))"
    by (simp add: VINPUT_MINORS_def)
  with card_ids_used_le [of "vinput_ids t"] have "card (ids_used (vinput_ids t)) = 32" by simp
  then have full: "\<forall>j<32. bit (vinput_ids t) j" by (blast intro: ids_used_full)
  show ?thesis
  proof (cases "vinput_get_device_by_type buf t")
    case (ERR_PTR e)
    then have "e = - ENODEV" by (simp add: vinput_get_device_by_type_def device_scan_err)
    with ERR_PTR show ?thesis by (simp add: export_store_def)
  next
    case (Ptr d)
    then show ?thesis by (simp add: export_store_def alloc_exhausted [OF full])
  qed
qed

theorem create_exhausted_witness:
  "exports (replicate 32 (ext_ok, ''vkbd'')) s_vkbd =
     Some \<lparr>vinput_ids = - 1, vinput_devices = [vkbd],
       vinput_vdevices = map (\<lambda>i. exported i vkbd) (rev [0..<32])\<rparr> \<and>
   length (replicate 32 (ext_ok, ''vkbd'')) = VINPUT_MINORS \<and>
   export_store ext_ok ''vkbd''
     \<lparr>vinput_ids = - 1, vinput_devices = [vkbd],
       vinput_vdevices = map (\<lambda>i. exported i vkbd) (rev [0..<32])\<rparr> =
     Some (- ENOBUFS, \<lparr>vinput_ids = - 1, vinput_devices = [vkbd],
       vinput_vdevices = map (\<lambda>i. exported i vkbd) (rev [0..<32])\<rparr>)"
proof -
  have h1: "exports (replicate 32 (ext_ok, ''vkbd'')) s_vkbd =
     Some \<lparr>vinput_ids = - 1, vinput_devices = [vkbd],
       vinput_vdevices = map (\<lambda>i. exported i vkbd) (rev [0..<32])\<rparr>"
    by code_simp
  have h2: "length (replicate 32 (ext_ok, ''vkbd'')) = VINPUT_MINORS"
    by (simp add: VINPUT_MINORS_def)
  have l: "vinput_get_device_by_type ''vkbd'' \<lparr>vinput_ids = - 1, vinput_devices = [vkbd],
       vinput_vdevices = map (\<lambda>i. exported i vkbd) (rev [0..<32])\<rparr> = Ptr vkbd"
    by (simp add: vinput_get_device_by_type_def vkbd_def strlen_def)
  from create_exhausted [OF h1 h2, of ext_ok "''vkbd''"] l h1 h2 show ?thesis by simp
qed

section \<open>Unregistering a type\<close>

lemma map_id_assign:
  "id w = id v \<Longrightarrow> map id (map (\<lambda>x. if x = v then w else x) xs) = map id xs"
  by (induction xs) auto

lemma put_device_pinned:
  "2 \<le> dev_refs v \<Longrightarrow>
     put_device v s = (Some (v\<lparr>dev_refs := dev_refs v - 1\<rparr>),
                       assign v (v\<lparr>dev_refs := dev_refs v - 1\<rparr>) s)"
  by (simp add: put_device_def Let_def)

lemma fold_unregister_pinned:
  "\<forall>v \<in> set xs. 2 \<le> dev_refs v \<Longrightarrow>
     vinput_ids (fold (\<lambda>v t. snd (device_unregister v t)) xs s) = vinput_ids s \<and>
     map id (vinput_vdevices (fold (\<lambda>v t. snd (device_unregister v t)) xs s)) =
       map id (vinput_vdevices s)"
proof (induction xs arbitrary: s)
  case Nil
  show ?case by simp
next
  case (Cons x xs)
  from Cons.prems have x: "2 \<le> dev_refs x" and rest: "\<forall>v \<in> set xs. 2 \<le> dev_refs v"
    by simp_all
  have step: "snd (device_unregister x s) = assign x (x\<lparr>dev_refs := dev_refs x - 1\<rparr>) s"
    by (simp add: device_unregister_def put_device_pinned [OF x])
  from Cons.IH [OF rest, of "snd (device_unregister x s)"] show ?case
    by (simp add: step assign_def map_id_assign)
qed

text \<open>
  When every instance in the list is still referenced by its registered input device,
  \<open>vinput_unregister\<close> leaves the bitmap and the ids in the list as they were.
\<close>

lemma unregister_keeps_pinned:
  assumes "\<forall>v \<in> set (vinput_vdevices s). 2 \<le> dev_refs v"
  shows "vinput_ids (vinput_unregister dev s) = vinput_ids s \<and>
     map id (vinput_vdevices (vinput_unregister dev s)) = map id (vinput_vdevices s)"
  using fold_unregister_pinned [of "vinput_vdevices s"
      "s\<lparr>vinput_devices := list_del dev (vinput_devices s)\<rparr>"] assms
  by (simp add: vinput_unregister_def Let_def)

text \<open>
  C6. \<open>vinput_unregister\<close> is to destroy every instance in the list, whatever type
  it is bound to. The loop does call \<open>device_unregister\<close> on every instance,
  whatever its type, but never \<open>input_unregister_device\<close>, as \<open>unexport_store\<close>
  does: the registered input device keeps its reference to the embedded device, the
  \<open>release\<close> callback does not run, and no instance is destroyed. After three
  exports, two of "vkbd" and one of "vmouse", unregistering "vmouse" leaves all three
  instances in the list and their ids 0, 1 and 2 marked.
\<close>

theorem unregister_leaves_instances:
  "exports [(ext_ok, ''vkbd''), (ext_ok, ''vmouse''), (ext_ok, ''vkbd'')] s_two_types =
     Some s_three \<and>
   map (\<lambda>v. (id v, map_option name (type v))) (vinput_vdevices s_three) =
     [(2, Some ''vkbd''), (1, Some ''vmouse''), (0, Some ''vkbd'')] \<and>
   vinput_unregister vmouse s_three =
     \<lparr>vinput_ids = 7, vinput_devices = [vkbd],
      vinput_vdevices = [(exported 2 vkbd)\<lparr>dev_refs := 1\<rparr>,
        (exported 1 vmouse)\<lparr>dev_refs := 1\<rparr>, (exported 0 vkbd)\<lparr>dev_refs := 1\<rparr>]\<rparr> \<and>
   length (vinput_vdevices (vinput_unregister vmouse s_three)) = 3"
  by code_simp

section \<open>Rollback of a failed export\<close>

lemma alloc_lowest_free:
  "vinput_alloc_vdevice True s = (Ptr v, s1) \<Longrightarrow>
     id v < VINPUT_MINORS \<and> \<not> bit (vinput_ids s) (id v) \<and> (\<forall>j < id v. bit (vinput_ids s) j)"
  using ffz_free [of "vinput_ids s" 32]
  by (auto simp: vinput_alloc_vdevice_def Let_def VINPUT_MINORS_def split: if_splits)

lemma clear_set_bit: "\<not> bit w i \<Longrightarrow> clear_bit i (set_bit i w) = w"
  by (rule bit_eqI) (auto simp: clear_bit_def bit_unset_bit_iff bit_set_bit_iff)

lemma map_fresh: "\<forall>x \<in> set xs. f x \<noteq> f v \<Longrightarrow> map (\<lambda>x. if x = v then w else x) xs = xs"
  by (induction xs) auto

text \<open>
  What \<open>export_store\<close> does once the name has resolved and an id is free, when
  every instance in the list has its id marked. A failure of the type's \<open>init\<close> or
  of \<open>device_register\<close> goes through \<open>vinput_destroy_vdevice\<close> and leaves the
  state as it was. After a failure of \<open>input_register_device\<close> nothing else holds a
  reference to the device, so \<open>device_unregister\<close> runs the \<open>release\<close>
  callback, and the labels that follow use the freed instance.
\<close>

lemma export_store_after_alloc:
  assumes live: "\<forall>v \<in> set (vinput_vdevices s). bit (vinput_ids s) (id v)"
    and ok: "input_allocate_device_ok x"
    and dev: "vinput_get_device_by_type buf s = Ptr device"
    and room: "find_first_zero_bit (vinput_ids s) VINPUT_MINORS < VINPUT_MINORS"
  shows "export_store x buf s =
     (if init_ret x < 0 then Some (init_ret x, s)
      else if device_register_ret x < 0 then Some (device_register_ret x, s)
      else if input_register_device_ret x < 0 then None
      else Some (int (length buf),
        s\<lparr>vinput_ids :=
             set_bit (find_first_zero_bit (vinput_ids s) VINPUT_MINORS) (vinput_ids s),
           vinput_vdevices :=
             exported (find_first_zero_bit (vinput_ids s) VINPUT_MINORS) device
               # vinput_vdevices s\<rparr>))"
proof -
  let ?i = "find_first_zero_bit (vinput_ids s) VINPUT_MINORS"
  let ?w = "set_bit ?i (vinput_ids s)"
  let ?vs = "vinput_vdevices s"
  let ?shell = "\<lparr>id = ?i, type = None, dev_refs = 0, input_registered = False\<rparr>"
  let ?bound = "\<lparr>id = ?i, type = Some device, dev_refs = 0, input_registered = False\<rparr>"
  let ?reg = "\<lparr>id = ?i, type = Some device, dev_refs = Suc 0, input_registered = False\<rparr>"
  from room have free: "\<not> bit (vinput_ids s) ?i"
    using ffz_free [of "vinput_ids s" VINPUT_MINORS] by simp
  from live free have fresh: "\<forall>w \<in> set ?vs. id w \<noteq> ?i" by auto
  have m: "map (\<lambda>x. if x = u then w else x) ?vs = ?vs" if "id u = ?i" for u w
    using fresh that by (intro map_fresh [where f = id]) simp
  have al: "vinput_alloc_vdevice True s =
      (Ptr ?shell, s\<lparr>vinput_ids := ?w, vinput_vdevices := ?shell # ?vs\<rparr>)"
  proof -
    from room have "\<not> VINPUT_MINORS \<le> ?i" by simp
    then show ?thesis
      unfolding vinput_alloc_vdevice_def Let_def list_add_def by simp
  qed
  have st: "set_type ?shell device (s\<lparr>vinput_ids := ?w, vinput_vdevices := ?shell # ?vs\<rparr>) =
      s\<lparr>vinput_ids := ?w, vinput_vdevices := ?bound # ?vs\<rparr>"
    by (simp add: set_type_def m)
  have dr: "device_register ?bound (s\<lparr>vinput_ids := ?w, vinput_vdevices := ?bound # ?vs\<rparr>) =
      (?reg, s\<lparr>vinput_ids := ?w, vinput_vdevices := ?reg # ?vs\<rparr>)"
    by (simp add: device_register_def assign_def m Let_def)
  have ir: "input_register_device ?reg (s\<lparr>vinput_ids := ?w, vinput_vdevices := ?reg # ?vs\<rparr>) =
      (exported ?i device,
       s\<lparr>vinput_ids := ?w, vinput_vdevices := exported ?i device # ?vs\<rparr>)"
    by (simp add: input_register_device_def assign_def m exported_def Let_def)
  have dh: "vinput_destroy_vdevice u
      (s\<lparr>vinput_ids := ?w, vinput_vdevices := u # ?vs\<rparr>) = s" if "id u = ?i" for u
    using free that by (simp add: vinput_destroy_vdevice_def list_del_def clear_set_bit)
  have f1: "fail_register e ?reg (s\<lparr>vinput_ids := ?w, vinput_vdevices := ?reg # ?vs\<rparr>) =
      Some (e, s)" for e
    by (simp add: fail_register_def vinput_unregister_vdevice_def input_unregister_device_def
        fail_register_vinput_def dh Let_def)
  have f2: "fail_register_input e ?reg
      (s\<lparr>vinput_ids := ?w, vinput_vdevices := ?reg # ?vs\<rparr>) = None" for e
    by (simp add: fail_register_input_def device_unregister_def put_device_def Let_def)
  show ?thesis
    using dev ok
    by (simp add: export_store_def al st dr ir dh f1 f2 fail_register_vinput_def Let_def)
qed

lemma late_failure_rolls_back:
  assumes live: "\<forall>v \<in> set (vinput_vdevices s). bit (vinput_ids s) (id v)"
    and ok: "input_allocate_device_ok x"
    and res: "export_store x buf s = Some (r, s1)"
    and fail: "r < 0"
  shows "s1 = s"
proof (cases "vinput_get_device_by_type buf s")
  case (ERR_PTR e)
  with res show ?thesis by (simp add: export_store_def)
next
  case (Ptr device)
  show ?thesis
  proof (cases "find_first_zero_bit (vinput_ids s) VINPUT_MINORS < VINPUT_MINORS")
    case False
    with Ptr res show ?thesis
      by (simp add: export_store_def vinput_alloc_vdevice_def Let_def)
  next
    case True
    from res fail show ?thesis
      unfolding export_store_after_alloc [OF live ok Ptr True]
      by (simp split: if_splits)
  qed
qed

lemma input_register_failure_faults:
  assumes live: "\<forall>v \<in> set (vinput_vdevices s). bit (vinput_ids s) (id v)"
    and ok: "input_allocate_device_ok x"
    and dev: "vinput_get_device_by_type buf s = Ptr device"
    and room: "find_first_zero_bit (vinput_ids s) VINPUT_MINORS < VINPUT_MINORS"
    and steps: "0 \<le> init_ret x" "0 \<le> device_register_ret x" "input_register_device_ret x < 0"
  shows "export_store x buf s = None"
  using steps unfolding export_store_after_alloc [OF live ok dev room] by simp

text \<open>
  C1. An export that fails after the id was allocated is to leave the bitmap and both
  lists as they were. When \<open>input_allocate_device\<close> fails, the label
  \<open>fail_input_dev\<close> unlinks the instance but does not clear its bit: with "vkbd"
  registered and no instance, the failed export returns \<open>-ENOMEM\<close> and leaves bit 0
  set with an empty instance list, and the next successful export obtains id 1.
\<close>

theorem failed_create_leaks_id:
  "s_vkbd = \<lparr>vinput_ids = 0, vinput_devices = [vkbd], vinput_vdevices = []\<rparr> \<and>
   export_store ext_no_input ''vkbd'' s_vkbd =
     Some (- ENOMEM, \<lparr>vinput_ids = 1, vinput_devices = [vkbd], vinput_vdevices = []\<rparr>) \<and>
   export_store ext_ok ''vkbd''
       \<lparr>vinput_ids = 1, vinput_devices = [vkbd], vinput_vdevices = []\<rparr> =
     Some (4, \<lparr>vinput_ids = 3, vinput_devices = [vkbd],
               vinput_vdevices = [exported 1 vkbd]\<rparr>)"
  by code_simp

section \<open>The registry invariant\<close>

text \<open>
  Registration, an export in which \<open>input_allocate_device\<close> succeeds and that
  returns, an unexport that returns and \<open>vinput_unregister\<close> all keep the invariant.
\<close>

lemma registry_ok_iff:
  "registry_ok s \<longleftrightarrow>
     distinct (map id (vinput_vdevices s)) \<and>
     (\<forall>i. bit (vinput_ids s) i \<longleftrightarrow> i \<in> id ` set (vinput_vdevices s))"
proof -
  have big: "\<not> bit (vinput_ids s) i" if "32 \<le> i" for i
    using that by (auto dest: bit_imp_le_length)
  show ?thesis
    unfolding registry_ok_def list_all_iff VINPUT_MINORS_def
    using big by (auto simp: not_le)
qed

lemma registry_ok_init: "registry_ok vinput_init"
  by (simp add: registry_ok_iff vinput_init_def)

lemma registry_ok_register: "registry_ok s \<Longrightarrow> registry_ok (snd (vinput_register dev s))"
  by (simp add: registry_ok_iff vinput_register_def)

lemma registry_ok_live:
  "registry_ok s \<Longrightarrow> \<forall>v \<in> set (vinput_vdevices s). bit (vinput_ids s) (id v)"
  by (simp add: registry_ok_def list_all_iff)

lemma registry_ok_assign:
  assumes "registry_ok s" and "id w = id v"
  shows "registry_ok (assign v w s)"
proof -
  have "map id (vinput_vdevices (assign v w s)) = map id (vinput_vdevices s)"
    using map_id_assign [OF assms(2), of "vinput_vdevices s"] by (simp add: assign_def)
  then have "id ` set (vinput_vdevices (assign v w s)) = id ` set (vinput_vdevices s)"
    by (metis set_map)
  with assms(1) \<open>map id (vinput_vdevices (assign v w s)) = map id (vinput_vdevices s)\<close>
  show ?thesis by (simp add: registry_ok_iff assign_ids)
qed

lemma member_assign:
  "v \<in> set (vinput_vdevices s) \<Longrightarrow> w \<in> set (vinput_vdevices (assign v w s))"
  by (auto simp: assign_def)

lemma other_assign:
  "u \<in> set (vinput_vdevices s) \<Longrightarrow> u \<noteq> v \<Longrightarrow> u \<in> set (vinput_vdevices (assign v w s))"
  by (auto simp: assign_def)

lemma registry_ok_destroy:
  assumes inv: "registry_ok s" and v: "v \<in> set (vinput_vdevices s)"
  shows "registry_ok (vinput_destroy_vdevice v s)"
proof -
  from inv have d: "distinct (map id (vinput_vdevices s))"
    and b: "\<And>i. bit (vinput_ids s) i \<longleftrightarrow> i \<in> id ` set (vinput_vdevices s)"
    by (simp_all add: registry_ok_iff)
  from d have dv: "distinct (vinput_vdevices s)" by (simp add: distinct_map)
  from d v have fresh: "id v \<notin> id ` (set (vinput_vdevices s) - {v})"
    by (auto simp: distinct_map inj_on_def)
  have "distinct (map id (remove1 v (vinput_vdevices s)))"
    using d by (simp add: distinct_map dv inj_on_def)
  moreover have "bit (clear_bit (id v) (vinput_ids s)) i \<longleftrightarrow>
      i \<in> id ` set (remove1 v (vinput_vdevices s))" for i
    using fresh v by (auto simp: clear_bit_def bit_unset_bit_iff b dv)
  ultimately show ?thesis
    by (simp add: registry_ok_iff vinput_destroy_vdevice_def list_del_def)
qed

lemma snd_put_device:
  "snd (put_device v s) =
     (if dev_refs v = 0 then s
      else if dev_refs v = 1
      then vinput_destroy_vdevice (v\<lparr>dev_refs := 0\<rparr>) (assign v (v\<lparr>dev_refs := 0\<rparr>) s)
      else assign v (v\<lparr>dev_refs := dev_refs v - 1\<rparr>) s)"
  by (auto simp: put_device_def Let_def vinput_release_dev_def)

lemma registry_ok_put_device:
  assumes inv: "registry_ok s" and v: "v \<in> set (vinput_vdevices s)"
  shows "registry_ok (snd (put_device v s))"
    and "fst (put_device v s) = Some w \<Longrightarrow> w \<in> set (vinput_vdevices (snd (put_device v s)))"
proof -
  let ?v1 = "v\<lparr>dev_refs := dev_refs v - 1\<rparr>"
  have a: "registry_ok (assign v ?v1 s)" by (rule registry_ok_assign [OF inv]) simp
  have m: "?v1 \<in> set (vinput_vdevices (assign v ?v1 s))" by (rule member_assign [OF v])
  have a': "registry_ok (assign v u s)" if "id u = id v" for u
    by (rule registry_ok_assign [OF inv that])
  have m': "u \<in> set (vinput_vdevices (assign v u s))" for u
    by (rule member_assign [OF v])
  show "registry_ok (snd (put_device v s))"
    unfolding snd_put_device
    using inv a' registry_ok_destroy [OF a' m'] by simp
  show "w \<in> set (vinput_vdevices (snd (put_device v s)))" if "fst (put_device v s) = Some w"
    using that v m by (auto simp: put_device_def Let_def split: if_splits)
qed

lemma registry_ok_input_unregister:
  assumes inv: "registry_ok s" and v: "v \<in> set (vinput_vdevices s)"
  shows "registry_ok (snd (input_unregister_device v s))"
proof (cases "input_registered v")
  case False
  with inv show ?thesis by (simp add: input_unregister_device_def)
next
  case True
  let ?v1 = "v\<lparr>input_registered := False\<rparr>"
  have a: "registry_ok (assign v ?v1 s)" by (rule registry_ok_assign [OF inv]) simp
  have m: "?v1 \<in> set (vinput_vdevices (assign v ?v1 s))" by (rule member_assign [OF v])
  from True registry_ok_put_device(1) [OF a m] show ?thesis
    by (simp add: input_unregister_device_def Let_def)
qed

lemma map_id_set_type:
  "map id (map (\<lambda>x. if x = v then v\<lparr>type := t\<rparr> else x) xs) = map id xs"
  by (induction xs) auto

lemma registry_ok_export:
  assumes inv: "registry_ok s" and ok: "input_allocate_device_ok x"
    and res: "export_store x buf s = Some (r, s1)"
  shows "registry_ok s1"
proof (cases "r < 0")
  case True
  from late_failure_rolls_back [OF registry_ok_live [OF inv] ok res True] inv
  show ?thesis by simp
next
  case False
  show ?thesis
  proof (cases "vinput_get_device_by_type buf s")
    case (ERR_PTR e)
    with inv res show ?thesis by (auto simp: export_store_def)
  next
    case (Ptr device)
    let ?i = "find_first_zero_bit (vinput_ids s) VINPUT_MINORS"
    show ?thesis
    proof (cases "?i < VINPUT_MINORS")
      case no: False
      with Ptr res inv show ?thesis
        by (auto simp: export_store_def vinput_alloc_vdevice_def Let_def)
    next
      case room: True
      then have lt: "?i < 32" by (simp add: VINPUT_MINORS_def)
      from room have free: "\<not> bit (vinput_ids s) ?i"
        using ffz_free [of "vinput_ids s" VINPUT_MINORS] by simp
      from res False have s1: "s1 = s\<lparr>vinput_ids := set_bit ?i (vinput_ids s),
          vinput_vdevices := exported ?i device # vinput_vdevices s\<rparr>"
        unfolding export_store_after_alloc [OF registry_ok_live [OF inv] ok Ptr room]
        by (auto split: if_splits)
      from inv free lt show ?thesis
        unfolding registry_ok_iff s1
        by (auto simp: bit_set_bit_iff exported_def)
    qed
  qed
qed

lemma lookup_Ptr_member:
  "vinput_get_vdevice_by_id i s = Some (Ptr v) \<Longrightarrow> v \<in> set (vinput_vdevices s)"
  by (auto simp: vinput_get_vdevice_by_id_def vdevice_scan_find
      split: option.splits if_splits dest: find_Some_iff [THEN iffD1] intro: nth_mem)

lemma registry_ok_unexport:
  assumes inv: "registry_ok s" and res: "unexport_store k buf s = Some (r, s1)"
  shows "registry_ok s1"
proof (cases "k buf")
  case None
  with inv res show ?thesis by (simp add: unexport_store_def)
next
  case (Some i)
  show ?thesis
  proof (cases "vinput_get_vdevice_by_id i s")
    case None
    with Some res show ?thesis by (simp add: unexport_store_def)
  next
    case found: (Some p)
    show ?thesis
    proof (cases p)
      case (ERR_PTR e)
      with Some found inv res show ?thesis by (simp add: unexport_store_def)
    next
      case (Ptr v)
      from found Ptr have v: "v \<in> set (vinput_vdevices s)"
        by (auto dest: lookup_Ptr_member)
      obtain o1 t where du: "put_device v s = (o1, t)" by (cases "put_device v s")
      with Some found Ptr res obtain v1 where o1: "o1 = Some v1"
        and s1: "s1 = snd (input_unregister_device v1 t)"
        by (auto simp: unexport_store_def device_unregister_def
            vinput_unregister_vdevice_def split: option.splits)
      from registry_ok_put_device(1) [OF inv v] registry_ok_put_device(2) [OF inv v, of v1]
        du o1
      have "registry_ok t" and "v1 \<in> set (vinput_vdevices t)" by simp_all
      then show ?thesis unfolding s1 by (rule registry_ok_input_unregister)
    qed
  qed
qed

lemma fold_unregister_ok:
  assumes "registry_ok s" and "set xs \<subseteq> set (vinput_vdevices s)"
    and "distinct (map id xs)"
  shows "registry_ok (fold (\<lambda>v t. snd (device_unregister v t)) xs s)"
  using assms
proof (induction xs arbitrary: s)
  case Nil
  then show ?case by simp
next
  case (Cons x xs)
  let ?t = "snd (put_device x s)"
  from Cons.prems have x: "x \<in> set (vinput_vdevices s)" by simp
  have ok: "registry_ok ?t" by (rule registry_ok_put_device(1) [OF Cons.prems(1) x])
  from Cons.prems(1) have d: "distinct (map id (vinput_vdevices s))"
    by (simp add: registry_ok_iff)
  have sub: "set xs \<subseteq> set (vinput_vdevices ?t)"
  proof
    fix u assume u: "u \<in> set xs"
    with Cons.prems(2) have us: "u \<in> set (vinput_vdevices s)" by auto
    from Cons.prems(3) have "id x \<notin> id ` set xs" by simp
    with u have ne: "id u \<noteq> id x" by (metis imageI)
    have keep: "u \<in> set (vinput_vdevices (assign x w s))"
      "u \<in> set (remove1 w (vinput_vdevices (assign x w s)))" if "id w = id x" for w
    proof -
      from ne that have "u \<noteq> x" "u \<noteq> w" by auto
      with us show "u \<in> set (vinput_vdevices (assign x w s))"
        "u \<in> set (remove1 w (vinput_vdevices (assign x w s)))"
        by (auto simp: other_assign)
    qed
    from us keep show "u \<in> set (vinput_vdevices ?t)"
      unfolding snd_put_device
      by (simp add: vinput_destroy_vdevice_def list_del_def)
  qed
  from Cons.prems have "distinct (map id xs)" by simp
  from Cons.IH [OF ok sub this] show ?case by (simp add: device_unregister_def)
qed

lemma registry_ok_unregister:
  assumes "registry_ok s"
  shows "registry_ok (vinput_unregister dev s)"
proof -
  let ?s1 = "s\<lparr>vinput_devices := list_del dev (vinput_devices s)\<rparr>"
  from assms have ok: "registry_ok ?s1" by (simp add: registry_ok_def)
  from assms have d: "distinct (map id (vinput_vdevices ?s1))" by (simp add: registry_ok_iff)
  from fold_unregister_ok [OF ok _ d] show ?thesis
    by (simp add: vinput_unregister_def Let_def)
qed

text \<open>
  C2. The bitmap and the instance list are to agree after every operation. They agree
  after a successful export; a following export in which \<open>input_allocate_device\<close>
  fails leaves bit 1 set while the only instance in the list has id 0.
\<close>

theorem failed_create_breaks_ids_match:
  "export_store ext_ok ''vkbd'' s_vkbd = Some (4, s_one) \<and>
   ids_match s_one \<and>
   export_store ext_no_input ''vkbd'' s_one = Some (- ENOMEM, s_one\<lparr>vinput_ids := 3\<rparr>) \<and>
   \<not> ids_match (s_one\<lparr>vinput_ids := 3\<rparr>) \<and>
   bit (vinput_ids (s_one\<lparr>vinput_ids := 3\<rparr>)) 1 \<and>
   map id (vinput_vdevices (s_one\<lparr>vinput_ids := 3\<rparr>)) = [0]"
  by code_simp

text \<open>
  C9. The allocator hands out the lowest clear id (lemma \<open>alloc_lowest_free\<close>), and
  after an export that obtained id 0 and an unexport of 0 the state is the one before
  the export, so the next export obtains id 0 again. A second unexport of 0 in between
  is to return \<open>-ENODEV\<close>; the instance list being empty then, the lookup by id
  dereferences \<open>NULL\<close> instead.
\<close>

theorem second_destroy_faults:
  "export_store ext_ok ''vkbd'' s_vkbd = Some (4, s_one) \<and>
   map id (vinput_vdevices s_one) = [0] \<and>
   unexport_store kstrtol_zero ''0'' s_one = Some (1, s_vkbd) \<and>
   unexport_store kstrtol_zero ''0'' s_vkbd = None"
  by code_simp

end
